theory Spec2Isabelle
  imports Main "HOL-Library.Sublist"
begin

section \<open>Python strings\<close>

text \<open>
  A Python \<open>str\<close> is a sequence of Unicode code points, so it is modelled as a list of
  natural numbers. \<open>str\<close> turns an ASCII literal into such a list.
\<close>

type_synonym pystr = "nat list"

definition str :: "string \<Rightarrow> pystr" where
  "str s = map of_char s"

definition NL :: nat where
  "NL = 10"

definition SP :: nat where
  "SP = 32"

text \<open>
  The code points for which \<open>str.isspace\<close> holds; \<open>str.strip()\<close> and the pattern
  \<open>\s\<close> of \<open>re\<close> both use this set.
\<close>

definition is_space :: "nat \<Rightarrow> bool" where
  "is_space c = (c \<in> set [9, 10, 11, 12, 13, 28, 29, 30, 31, 32, 133, 160, 5760,
      8192, 8193, 8194, 8195, 8196, 8197, 8198, 8199, 8200, 8201, 8202,
      8232, 8233, 8239, 8287, 12288])"

text \<open>\<open>s.strip()\<close>: leading and trailing whitespace removed.\<close>

definition strip :: "pystr \<Rightarrow> pystr" where
  "strip s = rev (dropWhile is_space (rev (dropWhile is_space s)))"

text \<open>\<open>s.replace('\n', ' ')\<close>.\<close>

definition replace_nl :: "pystr \<Rightarrow> pystr" where
  "replace_nl s = map (\<lambda>c. if c = NL then SP else c) s"

text \<open>
  \<open>re.sub(r'\s+', ' ', s)\<close>: scanning from the left, every maximal run of whitespace
  is replaced by one space.
\<close>

function sub_spaces :: "pystr \<Rightarrow> pystr" where
  "sub_spaces [] = []"
| "sub_spaces (c # cs) =
     (if is_space c then SP # sub_spaces (dropWhile is_space cs)
      else c # sub_spaces cs)"
  by pat_completeness auto
termination
  by (relation "measure length") (auto simp: length_dropWhile_le less_Suc_eq_le)

text \<open>\<open>s.split('\n')\<close>: the pieces between the separators, at least one piece.\<close>

fun split_nl :: "pystr \<Rightarrow> pystr list" where
  "split_nl [] = [[]]"
| "split_nl (c # cs) =
     (if c = NL then [] # split_nl cs
      else (case split_nl cs of
              [] \<Rightarrow> [[c]]
            | l # ls \<Rightarrow> (c # l) # ls))"

text \<open>\<open>sub in s\<close> for two strings: \<open>sub\<close> occurs in \<open>s\<close> as a contiguous piece.\<close>

fun contains :: "pystr \<Rightarrow> pystr \<Rightarrow> bool" where
  "contains [] sub = (sub = [])"
| "contains (c # cs) sub = (prefix sub (c # cs) \<or> contains cs sub)"

text \<open>\<open>s * n\<close> for an integer \<open>n\<close>: \<open>n\<close> copies of \<open>s\<close>, none when \<open>n\<close> is negative.\<close>

definition repeat :: "pystr \<Rightarrow> int \<Rightarrow> pystr" where
  "repeat s n = concat (replicate (nat n) s)"

section \<open>The parser state and its handlers\<close>

text \<open>
  The fields of \<open>CriteriaHTMLParser\<close>. \<open>current_tag\<close> is \<open>None\<close> or a tag name;
  the two levels are Python integers.
\<close>

record parser =
  content :: "pystr list"
  current_tag :: "pystr option"
  in_header :: bool
  in_title :: bool
  in_strong :: bool
  in_blockquote :: bool
  in_list :: bool
  list_level :: int
  small_text_level :: int

definition init :: parser where
  "init = \<lparr>content = [], current_tag = None, in_header = False, in_title = False,
            in_strong = False, in_blockquote = False, in_list = False,
            list_level = 0, small_text_level = 0\<rparr>"

text \<open>
  The attributes of a start tag as \<open>HTMLParser\<close> passes them: pairs of a name and a
  value, the value \<open>None\<close> for an attribute written without one (\<open><li style>\<close>).
\<close>

type_synonym attrs = "(pystr \<times> pystr option) list"

datatype error = TypeError

text \<open>
  \<open>dict(attrs).get('style', '')\<close>: the value of the last \<open>style\<close> pair, the empty
  string when there is none. The result is \<open>None\<close> when that value is.
\<close>

definition get_style :: "attrs \<Rightarrow> pystr option" where
  "get_style as =
     (case map_of (rev as) (str ''style'') of
        None \<Rightarrow> Some []
      | Some v \<Rightarrow> v)"

text \<open>\<open>sub in style\<close>, which raises \<open>TypeError\<close> when \<open>style\<close> is \<open>None\<close>.\<close>

definition py_in :: "pystr \<Rightarrow> pystr option \<Rightarrow> error + bool" where
  "py_in sub style =
     (case style of
        None \<Rightarrow> Inl TypeError
      | Some s \<Rightarrow> Inr (contains s sub))"

definition handle_starttag :: "pystr \<Rightarrow> attrs \<Rightarrow> parser \<Rightarrow> error + parser" where
  "handle_starttag tag as p0 =
     (let p = p0\<lparr>current_tag := Some tag\<rparr> in
      if tag = str ''h1'' then Inr (p\<lparr>in_header := True\<rparr>)
      else if tag = str ''h3'' then Inr p
      else if tag = str ''strong'' then Inr (p\<lparr>in_strong := True\<rparr>)
      else if tag = str ''blockquote'' then Inr (p\<lparr>in_blockquote := True\<rparr>)
      else if tag = str ''ul'' then
        Inr (p\<lparr>list_level := list_level p + 1, in_list := True\<rparr>)
      else if tag = str ''li'' then
        (case py_in (str ''circle'') (get_style as) of
           Inl e \<Rightarrow> Inl e
         | Inr circle \<Rightarrow>
             let pre = (if circle then str ''  - '' else str ''- '');
                 indent = repeat (str ''  '') (list_level p - 1)
             in Inr (p\<lparr>content := content p @ [indent @ pre]\<rparr>))
      else if tag = str ''span'' then
        (case py_in (str ''font-size:0.8em'') (get_style as) of
           Inl e \<Rightarrow> Inl e
         | Inr True \<Rightarrow> Inr (p\<lparr>small_text_level := small_text_level p + 1\<rparr>)
         | Inr False \<Rightarrow>
            (case py_in (str ''opacity:0.8'') (get_style as) of
               Inl e \<Rightarrow> Inl e
             | Inr True \<Rightarrow> Inr (p\<lparr>small_text_level := small_text_level p + 1\<rparr>)
             | Inr False \<Rightarrow> Inr p))
      else Inr p)"

definition handle_endtag :: "pystr \<Rightarrow> parser \<Rightarrow> parser" where
  "handle_endtag tag p =
     (let q =
        (if tag = str ''h1'' then p\<lparr>in_header := False, content := content p @ [[NL, NL]]\<rparr>
         else if tag = str ''h3'' then p\<lparr>content := content p @ [[NL, NL]]\<rparr>
         else if tag = str ''strong'' then p\<lparr>in_strong := False\<rparr>
         else if tag = str ''blockquote'' then
           p\<lparr>in_blockquote := False, content := content p @ [[NL]]\<rparr>
         else if tag = str ''ul'' then
           (let p1 = p\<lparr>list_level := list_level p - 1\<rparr> in
            if list_level p1 = 0 then p1\<lparr>in_list := False, content := content p1 @ [[NL]]\<rparr>
            else p1)
         else if tag = str ''li'' then p\<lparr>content := content p @ [[NL]]\<rparr>
         else if tag = str ''span'' then
           (if small_text_level p > 0 then p\<lparr>small_text_level := small_text_level p - 1\<rparr>
            else p)
         else if tag = str ''p'' then
           (if \<not> in_blockquote p then p\<lparr>content := content p @ [[NL]]\<rparr> else p)
         else p)
      in q\<lparr>current_tag := None\<rparr>)"

text \<open>The fragments the block-quote branch of \<open>handle_data\<close> appends, one per line.\<close>

definition quote_lines :: "pystr \<Rightarrow> pystr list" where
  "quote_lines d =
     map (\<lambda>line. str ''> '' @ strip line @ [NL])
         (filter (\<lambda>line. strip line \<noteq> []) (split_nl d))"

definition handle_data :: "pystr \<Rightarrow> parser \<Rightarrow> parser" where
  "handle_data raw p =
     (let d0 = strip raw in
      if d0 = [] then p
      else
        let d = sub_spaces (replace_nl d0) in
        if in_header p \<and> current_tag p = Some (str ''h1'') then
          p\<lparr>content := content p @ [str ''## '' @ d]\<rparr>
        else if current_tag p = Some (str ''h3'') then
          p\<lparr>content := content p @ [str ''### '' @ d]\<rparr>
        else if in_strong p then
          p\<lparr>content := content p @ [str ''**'' @ d @ str ''**'']\<rparr>
        else if in_blockquote p then
          p\<lparr>content := content p @ quote_lines d\<rparr>
        else if small_text_level p > 0 then
          p\<lparr>content := content p @ [str '' *('' @ d @ str '')*'']\<rparr>
        else if d \<noteq> [] then p\<lparr>content := content p @ [d]\<rparr>
        else p)"

definition get_content :: "parser \<Rightarrow> pystr" where
  "get_content p = concat (content p)"

section \<open>Feeding a document\<close>

text \<open>
  \<open>HTMLParser.feed\<close> tokenizes the text and calls the three handlers in document
  order; the calls it makes are the events below.
\<close>

datatype event = StartTag pystr attrs | EndTag pystr | Data pystr

fun handle_event :: "event \<Rightarrow> parser \<Rightarrow> error + parser" where
  "handle_event (StartTag tag as) p = handle_starttag tag as p"
| "handle_event (EndTag tag) p = Inr (handle_endtag tag p)"
| "handle_event (Data d) p = Inr (handle_data d p)"

fun feed :: "event list \<Rightarrow> parser \<Rightarrow> error + parser" where
  "feed [] p = Inr p"
| "feed (e # es) p =
     (case handle_event e p of
        Inl err \<Rightarrow> Inl err
      | Inr q \<Rightarrow> feed es q)"

text \<open>\<open>parse_html_file\<close>, on the events of the file's text: a fresh parser each time.\<close>

definition parse_html_file :: "event list \<Rightarrow> error + pystr" where
  "parse_html_file es =
     (case feed es init of
        Inl err \<Rightarrow> Inl err
      | Inr p \<Rightarrow> Inr (get_content p))"

section \<open>The driver\<close>

text \<open>
  \<open>re.sub(r'\n{3,}', '\n\n', s)\<close>: scanning from the left, a position where three or
  more newlines start is replaced, with all the newlines that follow it, by two.
\<close>

function collapse_newlines :: "pystr \<Rightarrow> pystr" where
  "collapse_newlines [] = []"
| "collapse_newlines (c # cs) =
     (let n = length (takeWhile (\<lambda>x. x = NL) (c # cs)) in
      if 3 \<le> n then NL # NL # collapse_newlines (drop n (c # cs))
      else c # collapse_newlines cs)"
  by pat_completeness auto
termination
  by (relation "measure length") auto

definition separator :: pystr where
  "separator = NL # str ''---'' @ [NL, NL]"

definition title_line :: pystr where
  "title_line =
     [35, 32, 50616, 47200, 32, 48372, 46020, 32, 54217, 44032, 32, 44592, 51456, 32,
      40, 44592, 51316, 32, 56, 54637, 47785, 41, 10, 10]"

definition intro_line :: pystr where
  "intro_line =
     [62, 32, 44592, 51316, 32, 54217, 44032, 32, 44592, 51456, 32, 56, 44060, 32,
      54637, 47785, 51012, 32, 53685, 54633, 54620, 32, 47928, 49436, 51077, 45768,
      45796, 46, 10, 10]"

definition rule_line :: pystr where
  "rule_line = str ''---'' @ [NL, NL]"

text \<open>
  The loop of \<open>main\<close> over the file names: a file that does not exist (\<open>None\<close>) is
  skipped, a file that exists is parsed and its content and the separator are appended.
\<close>

fun process_files :: "event list option list \<Rightarrow> pystr list \<Rightarrow> error + pystr list" where
  "process_files [] acc = Inr acc"
| "process_files (None # fs) acc = process_files fs acc"
| "process_files (Some es # fs) acc =
     (case parse_html_file es of
        Inl err \<Rightarrow> Inl err
      | Inr c \<Rightarrow> process_files fs (acc @ [c, separator]))"

text \<open>The text \<open>main\<close> has joined before the final clean-up, and the text it writes.\<close>

definition joined_content :: "event list option list \<Rightarrow> error + pystr" where
  "joined_content fs =
     (case process_files fs [title_line, intro_line, rule_line] of
        Inl err \<Rightarrow> Inl err
      | Inr all_content \<Rightarrow> Inr (concat all_content))"

definition main :: "event list option list \<Rightarrow> error + pystr" where
  "main fs =
     (case joined_content fs of
        Inl err \<Rightarrow> Inl err
      | Inr final_content \<Rightarrow> Inr (collapse_newlines final_content))"

section \<open>The final clean-up of newlines\<close>

lemma lead_drop: "takeWhile P (drop (length (takeWhile P xs)) xs) = []"
  by (induction xs) auto

lemma collapse_long:
  "3 \<le> length (takeWhile (\<lambda>x. x = NL) (c # cs)) \<Longrightarrow>
   collapse_newlines (c # cs) =
     NL # NL # collapse_newlines (drop (length (takeWhile (\<lambda>x. x = NL) (c # cs))) (c # cs))"
  by (simp add: Let_def)

lemma collapse_short:
  "length (takeWhile (\<lambda>x. x = NL) (c # cs)) < 3 \<Longrightarrow>
   collapse_newlines (c # cs) = c # collapse_newlines cs"
  by (simp add: Let_def)

text \<open>
  The result starts with as many newlines as the input, but with no more than two.
\<close>

lemma lead_collapse:
  "length (takeWhile (\<lambda>x. x = NL) (collapse_newlines xs)) =
   min 2 (length (takeWhile (\<lambda>x. x = NL) xs))"
proof (induction xs rule: collapse_newlines.induct)
  case 1
  show ?case by simp
next
  case (2 c cs)
  let ?n = "length (takeWhile (\<lambda>x. x = NL) (c # cs))"
  show ?case
  proof (cases "3 \<le> ?n")
    case True
    have "length (takeWhile (\<lambda>x. x = NL) (collapse_newlines (drop ?n (c # cs)))) =
          min 2 (length (takeWhile (\<lambda>x. x = NL) (drop ?n (c # cs))))"
      using 2(1) [OF refl True] .
    then have "length (takeWhile (\<lambda>x. x = NL) (collapse_newlines (drop ?n (c # cs)))) = 0"
      by (simp only: lead_drop) simp
    then show ?thesis
      using True by (simp only: collapse_long [OF True]) simp
  next
    case False
    then have short: "?n < 3" by simp
    have ih: "length (takeWhile (\<lambda>x. x = NL) (collapse_newlines cs)) =
          min 2 (length (takeWhile (\<lambda>x. x = NL) cs))"
      using 2(2) [OF refl False] .
    show ?thesis
      using short ih by (simp only: collapse_short [OF short]) (auto split: if_splits)
  qed
qed

lemma collapse_newlines_example:
  "collapse_newlines [1, NL, NL, NL, NL, 2, NL, NL, 3, NL, NL, NL] =
     [1, NL, NL, 2, NL, NL, 3, NL, NL]"
  by (simp add: NL_def)

text \<open>
  C9: the final clean-up, which replaces every run of three or more newlines by two
  newlines, is idempotent: on every string, applying it twice gives what applying it
  once gives.
\<close>

theorem collapse_newlines_idempotent:
  "collapse_newlines (collapse_newlines s) = collapse_newlines s"
proof (induction s rule: collapse_newlines.induct)
  case 1
  show ?case by simp
next
  case (2 c cs)
  let ?n = "length (takeWhile (\<lambda>x. x = NL) (c # cs))"
  show ?case
  proof (cases "3 \<le> ?n")
    case True
    let ?r = "collapse_newlines (drop ?n (c # cs))"
    have ih: "collapse_newlines ?r = ?r"
      using 2(1) [OF refl True] .
    have "length (takeWhile (\<lambda>x. x = NL) ?r) = 0"
      using lead_collapse [of "drop ?n (c # cs)"] by (simp only: lead_drop) simp
    then have r0: "takeWhile (\<lambda>x. x = NL) ?r = []" by simp
    have one: "collapse_newlines (NL # ?r) = NL # ?r"
      using r0 ih by (simp add: Let_def)
    have two: "collapse_newlines (NL # NL # ?r) = NL # NL # ?r"
      using r0 one by (simp add: Let_def)
    show ?thesis
      using two by (simp only: collapse_long [OF True])
  next
    case False
    then have short: "?n < 3" by simp
    have ih: "collapse_newlines (collapse_newlines cs) = collapse_newlines cs"
      using 2(2) [OF refl False] .
    have "length (takeWhile (\<lambda>x. x = NL) (c # collapse_newlines cs)) < 3"
      using short lead_collapse [of cs] by (auto split: if_splits)
    then have "collapse_newlines (c # collapse_newlines cs) =
               c # collapse_newlines (collapse_newlines cs)"
      by (rule collapse_short)
    then show ?thesis
      using ih by (simp only: collapse_short [OF short])
  qed
qed

section \<open>Evaluating the handlers\<close>

lemmas eval_defs = parse_html_file_def init_def handle_starttag_def handle_endtag_def
  handle_data_def str_def NL_def SP_def strip_def is_space_def replace_nl_def
  get_content_def quote_lines_def get_style_def py_in_def repeat_def

lemma repeat_two_spaces: "repeat (str ''  '') n = replicate (2 * nat n) SP"
proof -
  have "concat (replicate k [SP, SP]) = replicate (2 * k) SP" for k
    by (induction k) simp_all
  then show ?thesis
    by (simp add: repeat_def str_def SP_def)
qed

section \<open>Headings\<close>

text \<open>
  C6: for the input \<open><h1>Title</h1>\<close> (a start tag \<open>h1\<close>, the text \<open>Title\<close>, an end
  tag \<open>h1\<close>) the output is exactly \<open>"## Title\n\n"\<close>: text inside an open \<open>h1\<close> is
  emitted as \<open>"## "\<close> followed by the cleaned text, nothing when the text is blank, and
  the end tag \<open>h1\<close> clears the header flag and appends two newlines.
\<close>

theorem h1_round_trip:
  "parse_html_file [StartTag (str ''h1'') [], Data (str ''Title''), EndTag (str ''h1'')] =
     Inr (str ''## Title'' @ [NL, NL]) \<and>
   content (handle_data raw (p\<lparr>in_header := True, current_tag := Some (str ''h1'')\<rparr>)) =
     content p @ (if strip raw = [] then []
                  else [str ''## '' @ sub_spaces (replace_nl (strip raw))]) \<and>
   handle_endtag (str ''h1'') p =
     p\<lparr>in_header := False, content := content p @ [[NL, NL]], current_tag := None\<rparr>"
proof (intro conjI)
  show "parse_html_file [StartTag (str ''h1'') [], Data (str ''Title''), EndTag (str ''h1'')] =
     Inr (str ''## Title'' @ [NL, NL])"
    by (simp add: eval_defs)
next
  show "content (handle_data raw (p\<lparr>in_header := True, current_tag := Some (str ''h1'')\<rparr>)) =
     content p @ (if strip raw = [] then []
                  else [str ''## '' @ sub_spaces (replace_nl (strip raw))])"
    by (simp add: handle_data_def Let_def)
next
  show "handle_endtag (str ''h1'') p =
     p\<lparr>in_header := False, content := content p @ [[NL, NL]], current_tag := None\<rparr>"
    by (simp add: handle_endtag_def)
qed

text \<open>
  C7: every end tag \<open>h3\<close> appends two newlines to the content, in every parser state
  (whatever the header flag is), and changes nothing else but the current tag, which it
  clears; for the input \<open><h3>Sub</h3>\<close> the output is exactly \<open>"### Sub\n\n"\<close>.
\<close>

theorem h3_close_appends_blank_line:
  "handle_endtag (str ''h3'') p =
     p\<lparr>content := content p @ [[NL, NL]], current_tag := None\<rparr> \<and>
   parse_html_file [StartTag (str ''h3'') [], Data (str ''Sub''), EndTag (str ''h3'')] =
     Inr (str ''### Sub'' @ [NL, NL])"
proof (intro conjI)
  show "handle_endtag (str ''h3'') p =
     p\<lparr>content := content p @ [[NL, NL]], current_tag := None\<rparr>"
    by (simp add: handle_endtag_def str_def)
next
  show "parse_html_file [StartTag (str ''h3'') [], Data (str ''Sub''), EndTag (str ''h3'')] =
     Inr (str ''### Sub'' @ [NL, NL])"
    by (simp add: eval_defs)
qed

section \<open>Text events\<close>

lemma handle_data_fields:
  "current_tag (handle_data raw p) = current_tag p"
  "in_header (handle_data raw p) = in_header p"
  "in_title (handle_data raw p) = in_title p"
  "in_strong (handle_data raw p) = in_strong p"
  "in_blockquote (handle_data raw p) = in_blockquote p"
  "in_list (handle_data raw p) = in_list p"
  "list_level (handle_data raw p) = list_level p"
  "small_text_level (handle_data raw p) = small_text_level p"
  by (simp_all add: handle_data_def Let_def)

lemma handle_data_prefix: "prefix (content p) (content (handle_data raw p))"
  by (simp add: handle_data_def Let_def)

text \<open>A text event that is blank after \<open>strip\<close> leaves the whole parser state as it is.\<close>

lemma handle_data_blank: "strip raw = [] \<Longrightarrow> handle_data raw p = p"
  by (simp add: handle_data_def)

text \<open>
  C10: a text event only appends to the content: \<open>handle_data\<close> leaves the header,
  strong and block-quote flags, the list level, the small-text level and the current
  tag (and the two fields the handlers never read, \<open>in_title\<close> and \<open>in_list\<close>) as they
  were, and the content before the event is a prefix of the content after it. This holds
  for every text event, the blank ones included.
\<close>

theorem handle_data_frame:
  "in_header (handle_data raw p) = in_header p \<and>
   in_strong (handle_data raw p) = in_strong p \<and>
   in_blockquote (handle_data raw p) = in_blockquote p \<and>
   list_level (handle_data raw p) = list_level p \<and>
   small_text_level (handle_data raw p) = small_text_level p \<and>
   current_tag (handle_data raw p) = current_tag p \<and>
   in_title (handle_data raw p) = in_title p \<and>
   in_list (handle_data raw p) = in_list p \<and>
   prefix (content p) (content (handle_data raw p))"
  by (simp only: handle_data_fields handle_data_prefix simp_thms)

section \<open>Block quotes\<close>

text \<open>
  The cleaned text of a text event holds no newline, so the loop over the lines of a
  quoted text runs once at most.
\<close>

lemma sub_spaces_no_newline: "NL \<notin> set (sub_spaces s)"
  by (induction s rule: sub_spaces.induct) (auto simp: NL_def SP_def is_space_def)

lemma split_nl_single: "NL \<notin> set d \<Longrightarrow> split_nl d = [d]"
  by (induction d) auto

lemma quote_lines_single:
  "quote_lines (sub_spaces s) =
     (if strip (sub_spaces s) = [] then []
      else [str ''> '' @ strip (sub_spaces s) @ [NL]])"
  by (simp add: quote_lines_def split_nl_single [OF sub_spaces_no_newline])

text \<open>
  C1: for the input \<open><blockquote>a\nb</blockquote>\<close> (a start tag \<open>blockquote\<close>, the
  text \<open>a\nb\<close>, an end tag \<open>blockquote\<close>) the output is \<open>"> a b\n"\<close> followed by the
  newline of the end tag: the newline inside the text has become a space before the
  block-quote branch splits the text into lines, so one fragment is appended, not the
  two fragments \<open>"> a\n"\<close> and \<open>"> b\n"\<close>.
\<close>

theorem blockquote_newline_is_collapsed:
  "parse_html_file [StartTag (str ''blockquote'') [], Data (str ''a'' @ [NL] @ str ''b''),
      EndTag (str ''blockquote'')] = Inr (str ''> a b'' @ [NL, NL])"
  by (simp add: eval_defs)

section \<open>Lists\<close>

text \<open>
  A list item whose \<open>style\<close> is a string (the empty string when the item has no such
  attribute) appends the indentation, two spaces for each list level above the first,
  and the bullet marker.
\<close>

lemma li_is_no_other_tag:
  "str ''li'' \<noteq> str ''h1''" "str ''li'' \<noteq> str ''h3''" "str ''li'' \<noteq> str ''strong''"
  "str ''li'' \<noteq> str ''blockquote''" "str ''li'' \<noteq> str ''ul''"
  by (simp_all add: str_def)

lemma li_prefix_when_style_is_text:
  "get_style as = Some style \<Longrightarrow>
   handle_starttag (str ''li'') as p =
     Inr (p\<lparr>current_tag := Some (str ''li''),
            content := content p @
              [replicate (2 * nat (list_level p - 1)) SP @
               (if contains style (str ''circle'') then str ''  - '' else str ''- '')]\<rparr>)"
  by (simp add: handle_starttag_def li_is_no_other_tag py_in_def repeat_two_spaces Let_def)

text \<open>
  C5: a list item written with a \<open>style\<close> attribute that has no value (\<open><li style>\<close>),
  opened at list level 1, appends nothing: \<open>'circle' in style\<close> is evaluated on \<open>None\<close>
  and the handler raises \<open>TypeError\<close>.
\<close>

theorem li_valueless_style_raises:
  "handle_starttag (str ''li'') [(str ''style'', None)] (init\<lparr>list_level := 1\<rparr>) =
     Inl TypeError"
  by (simp add: eval_defs)

text \<open>
  C3: the end tag \<open>ul\<close> decrements the list level without looking at it, so on a fresh
  parser the input \<open></ul>\<close> leaves the list level at \<open>-1\<close>.
\<close>

theorem unmatched_ul_close_makes_level_negative:
  "feed [EndTag (str ''ul'')] init = Inr (init\<lparr>list_level := - 1\<rparr>)"
  by (simp add: eval_defs)

text \<open>
  The small-text level is guarded: the end tag \<open>span\<close> decrements it only when it is
  positive, so it never goes below zero.
\<close>

lemma handle_starttag_small_text_level:
  "handle_starttag tag as p = Inr q \<Longrightarrow> small_text_level p \<le> small_text_level q"
  by (auto simp: handle_starttag_def Let_def split: if_splits sum.splits bool.splits)

lemma handle_endtag_small_text_level:
  "0 \<le> small_text_level p \<Longrightarrow> 0 \<le> small_text_level (handle_endtag tag p)"
  by (simp add: handle_endtag_def Let_def)

lemma handle_event_small_text_level:
  assumes "0 \<le> small_text_level p" and "handle_event e p = Inr q"
  shows "0 \<le> small_text_level q"
proof (cases e)
  case (StartTag tag as)
  then show ?thesis
    using assms handle_starttag_small_text_level [of tag as p q] by simp
next
  case (EndTag tag)
  then show ?thesis
    using assms handle_endtag_small_text_level [of p tag] by auto
next
  case (Data d)
  then show ?thesis
    using assms by (auto simp: handle_data_fields)
qed

lemma feed_small_text_level:
  "0 \<le> small_text_level p \<Longrightarrow> feed es p = Inr q \<Longrightarrow> 0 \<le> small_text_level q"
proof (induction es arbitrary: p)
  case Nil
  then show ?case by simp
next
  case (Cons e es)
  from Cons.prems(2) obtain r where r: "handle_event e p = Inr r" and rest: "feed es r = Inr q"
    by (auto split: sum.splits)
  from handle_event_small_text_level [OF Cons.prems(1) r] have "0 \<le> small_text_level r" .
  from Cons.IH [OF this rest] show ?case .
qed

section \<open>Malformed input\<close>

text \<open>
  C8: the input \<open><ul><li style>x</li></ul>\<close> makes \<open>parse_html_file\<close> raise
  \<open>TypeError\<close>: the start tag \<open>li\<close> carries the attribute \<open>style\<close> with the value
  \<open>None\<close>.
\<close>

theorem valueless_style_makes_parse_raise:
  "parse_html_file [StartTag (str ''ul'') [], StartTag (str ''li'') [(str ''style'', None)],
     Data (str ''x''), EndTag (str ''li''), EndTag (str ''ul'')] = Inl TypeError"
  by (simp add: eval_defs)

section \<open>Small text\<close>

text \<open>
  C4, as the claim states it, fails: a span whose style declares the font size
  \<open>0.5em\<close>, which is below \<open>1em\<close>, leaves the small-text level at 0.
\<close>

theorem span_half_em_is_not_small:
  "handle_starttag (str ''span'') [(str ''style'', Some (str ''font-size:0.5em''))] init =
     Inr (init\<lparr>current_tag := Some (str ''span''), small_text_level := 0\<rparr>)"
  by (simp add: eval_defs)

text \<open>
  C4, amended: every start tag \<open>span\<close> whose style is a string that contains the text
  \<open>font-size:0.8em\<close> or the text \<open>opacity:0.8\<close> increments the small-text level by
  one; a text that is not blank, met while the small-text level is positive and none of
  the heading, strong and block-quote rules applies, is appended as \<open>" *("\<close>, the cleaned
  text, \<open>")*"\<close>; so a span with the style \<open>opacity:0.8\<close> around \<open>note\<close>, after the
  plain text \<open>see\<close>, gives \<open>"see *(note)*"\<close>.
\<close>

theorem span_small_text:
  "(get_style as = Some style \<and>
      (contains style (str ''font-size:0.8em'') \<or> contains style (str ''opacity:0.8'')) \<longrightarrow>
      handle_starttag (str ''span'') as p =
        Inr (p\<lparr>current_tag := Some (str ''span''),
               small_text_level := small_text_level p + 1\<rparr>)) \<and>
   (strip raw \<noteq> [] \<and> 0 < small_text_level p \<and> \<not> in_strong p \<and> \<not> in_blockquote p \<and>
      current_tag p \<noteq> Some (str ''h3'') \<and>
      \<not> (in_header p \<and> current_tag p = Some (str ''h1'')) \<longrightarrow>
      handle_data raw p =
        p\<lparr>content := content p @
              [str '' *('' @ sub_spaces (replace_nl (strip raw)) @ str '')*'']\<rparr>) \<and>
   parse_html_file [Data (str ''see''),
     StartTag (str ''span'') [(str ''style'', Some (str ''opacity:0.8''))],
     Data (str ''note''), EndTag (str ''span'')] = Inr (str ''see *(note)*'')"
proof (intro conjI impI)
  assume "get_style as = Some style \<and>
      (contains style (str ''font-size:0.8em'') \<or> contains style (str ''opacity:0.8''))"
  then show "handle_starttag (str ''span'') as p =
        Inr (p\<lparr>current_tag := Some (str ''span''),
               small_text_level := small_text_level p + 1\<rparr>)"
    by (auto simp: handle_starttag_def py_in_def Let_def str_def split: bool.splits)
next
  assume "strip raw \<noteq> [] \<and> 0 < small_text_level p \<and> \<not> in_strong p \<and> \<not> in_blockquote p \<and>
      current_tag p \<noteq> Some (str ''h3'') \<and>
      \<not> (in_header p \<and> current_tag p = Some (str ''h1''))"
  then show "handle_data raw p =
        p\<lparr>content := content p @
              [str '' *('' @ sub_spaces (replace_nl (strip raw)) @ str '')*'']\<rparr>"
    by (auto simp: handle_data_def Let_def)
next
  show "parse_html_file [Data (str ''see''),
     StartTag (str ''span'') [(str ''style'', Some (str ''opacity:0.8''))],
     Data (str ''note''), EndTag (str ''span'')] = Inr (str ''see *(note)*'')"
    by (simp add: eval_defs)
qed

theorem span_small_text_witness:
  "get_style [(str ''style'', Some (str ''opacity:0.8''))] = Some (str ''opacity:0.8'') \<and>
   contains (str ''opacity:0.8'') (str ''opacity:0.8'') \<and>
   handle_starttag (str ''span'') [(str ''style'', Some (str ''opacity:0.8''))]
       (init\<lparr>small_text_level := 1\<rparr>) =
     Inr (init\<lparr>current_tag := Some (str ''span''), small_text_level := 2\<rparr>) \<and>
   strip (str ''note'') \<noteq> [] \<and>
   handle_data (str ''note'') (init\<lparr>small_text_level := 1\<rparr>) =
     init\<lparr>small_text_level := 1, content := [str '' *(note)*'']\<rparr>"
proof -
  let ?as = "[(str ''style'', Some (str ''opacity:0.8''))]"
  let ?p = "init\<lparr>small_text_level := 1\<rparr>"
  have style: "get_style ?as = Some (str ''opacity:0.8'')"
    by (simp add: get_style_def str_def)
  have sub: "contains (str ''opacity:0.8'') (str ''opacity:0.8'')"
    by (simp add: str_def)
  have nonblank: "strip (str ''note'') \<noteq> []"
    by (simp add: strip_def str_def is_space_def)
  have ctx: "0 < small_text_level ?p \<and> \<not> in_strong ?p \<and> \<not> in_blockquote ?p \<and>
      current_tag ?p \<noteq> Some (str ''h3'') \<and>
      \<not> (in_header ?p \<and> current_tag ?p = Some (str ''h1''))"
    by (simp add: init_def)
  have clean: "sub_spaces (replace_nl (strip (str ''note''))) = str ''note''"
    by (simp add: strip_def str_def is_space_def replace_nl_def NL_def)
  from span_small_text [of ?as "str ''opacity:0.8''" ?p "str ''note''"] style sub nonblank ctx
  have "handle_starttag (str ''span'') ?as ?p =
          Inr (?p\<lparr>current_tag := Some (str ''span''),
                 small_text_level := small_text_level ?p + 1\<rparr>)"
    and "handle_data (str ''note'') ?p =
          ?p\<lparr>content := content ?p @
              [str '' *('' @ sub_spaces (replace_nl (strip (str ''note''))) @ str '')*'']\<rparr>"
    by blast+
  then show ?thesis
    using style sub nonblank by (simp add: clean) (simp add: init_def str_def)
qed

section \<open>Joining the documents\<close>

text \<open>
  The loop appends, for every file that exists and parses, the content of the file and
  then the separator.
\<close>

lemma process_files_appends:
  "list_all2 (\<lambda>es c. parse_html_file es = Inr c) [es. Some es \<leftarrow> fs] frags \<Longrightarrow>
   process_files fs acc = Inr (acc @ concat (map (\<lambda>c. [c, separator]) frags))"
proof (induction fs arbitrary: acc frags)
  case Nil
  then show ?case by simp
next
  case (Cons f fs)
  show ?case
  proof (cases f)
    case None
    then show ?thesis using Cons by simp
  next
    case (Some es)
    with Cons.prems obtain c cs where frags: "frags = c # cs"
      and c: "parse_html_file es = Inr c"
      and cs: "list_all2 (\<lambda>es c. parse_html_file es = Inr c) [es. Some es \<leftarrow> fs] cs"
      by (auto simp: list_all2_Cons1)
    show ?thesis
      using Some c frags Cons.IH [OF cs, of "acc @ [c, separator]"] by simp
  qed
qed

lemma concat_pairs:
  "concat (concat (map (\<lambda>c. [c, s]) frags)) = concat (map (\<lambda>c. c @ s) frags)"
  by (induction frags) simp_all

lemma parse_plain_A: "parse_html_file [Data (str ''A'')] = Inr (str ''A'')"
  by (simp add: eval_defs)

lemma parse_plain_B: "parse_html_file [Data (str ''B'')] = Inr (str ''B'')"
  by (simp add: eval_defs)

text \<open>
  C2, as the claim states it, fails: for the two documents whose fragments are \<open>A\<close> and
  \<open>B\<close> the joined text, after the three fixed header lines, is not \<open>"A\n---\n\nB"\<close>.
\<close>

theorem joiner_counterexample:
  "joined_content [Some [Data (str ''A'')], Some [Data (str ''B'')]] \<noteq>
     Inr (title_line @ intro_line @ rule_line @ str ''A'' @ separator @ str ''B'')"
  by (simp add: joined_content_def parse_plain_A parse_plain_B separator_def)

text \<open>
  C2, amended: for every sequence of files, when the files that exist parse to the
  fragments \<open>frags\<close>, the joined text is the three fixed header lines followed by every
  fragment with the separator \<open>"\n---\n\n"\<close> after it, the last fragment included; so the
  two fragments \<open>A\<close> and \<open>B\<close> give \<open>"A\n---\n\nB\n---\n\n"\<close> after the header lines,
  before the newlines are collapsed.
\<close>

theorem joiner_separator_after_each:
  "(list_all2 (\<lambda>es c. parse_html_file es = Inr c) [es. Some es \<leftarrow> fs] frags \<longrightarrow>
      joined_content fs =
        Inr (title_line @ intro_line @ rule_line @ concat (map (\<lambda>c. c @ separator) frags))) \<and>
   joined_content [Some [Data (str ''A'')], Some [Data (str ''B'')]] =
     Inr (title_line @ intro_line @ rule_line @
          str ''A'' @ separator @ str ''B'' @ separator)"
proof (intro conjI impI)
  assume "list_all2 (\<lambda>es c. parse_html_file es = Inr c) [es. Some es \<leftarrow> fs] frags"
  from process_files_appends [OF this, of "[title_line, intro_line, rule_line]"]
  show "joined_content fs =
        Inr (title_line @ intro_line @ rule_line @ concat (map (\<lambda>c. c @ separator) frags))"
    by (simp add: joined_content_def concat_pairs)
next
  show "joined_content [Some [Data (str ''A'')], Some [Data (str ''B'')]] =
     Inr (title_line @ intro_line @ rule_line @
          str ''A'' @ separator @ str ''B'' @ separator)"
    by (simp add: joined_content_def parse_plain_A parse_plain_B)
qed

theorem joiner_separator_after_each_witness:
  "list_all2 (\<lambda>es c. parse_html_file es = Inr c)
     [es. Some es \<leftarrow> [Some [Data (str ''A'')], None, Some [Data (str ''B'')]]]
     [str ''A'', str ''B''] \<and>
   joined_content [Some [Data (str ''A'')], None, Some [Data (str ''B'')]] =
     Inr (title_line @ intro_line @ rule_line @
          concat (map (\<lambda>c. c @ separator) [str ''A'', str ''B'']))"
proof -
  have h: "list_all2 (\<lambda>es c. parse_html_file es = Inr c)
     [es. Some es \<leftarrow> [Some [Data (str ''A'')], None, Some [Data (str ''B'')]]]
     [str ''A'', str ''B'']"
    by (simp add: parse_plain_A parse_plain_B)
  show ?thesis
    using h joiner_separator_after_each
      [of "[Some [Data (str ''A'')], None, Some [Data (str ''B'')]]" "[str ''A'', str ''B'']"]
    by blast
qed

end
